theory Spec2Isabelle
  imports Main "HOL-Library.Sublist"
begin

section \<open>The PostGIS package recipe\<close>

text \<open>
  A shallow embedding of \<^verbatim>\<open>var/spack/repos/builtin/packages/postgis/package.py\<close>.
  Strings are \<open>string\<close>, the version table is an association list, the resolved
  spec is a record, and everything the recipe does to the outside (running pg_ctl and
  psql, creating and removing the temporary directory, writing files) is explicit
  state passing over a trace of events, with Python exceptions as the left summand of
  a sum type.
\<close>

subsection \<open>Declared versions\<close>

text \<open>The four \<^verbatim>\<open>version(...)\<close> directives, in the order of the source.\<close>

definition versions :: "(string \<times> string) list" where
  "versions =
    [(''3.1.2'', ''2cdd3760176926704b4eb25ff3357543c9637dee74425a49082906857c7e0732''),
     (''3.0.1'', ''5a5432f95150d9bae9215c6d1c7bb354e060482a7c379daa9b8384e1d03e6353''),
     (''3.0.0'', ''c06fd2cd5cea0119106ffe17a7235d893c2bbe6f4b63c8617c767630973ba594''),
     (''2.5.3'', ''72e8269d40f981e22fb2b78d3ff292338e69a4f5166e481a77b015e1d34e559a'')]"

definition is_lower_hex :: "char \<Rightarrow> bool" where
  "is_lower_hex c = (c \<in> set ''0123456789abcdef'')"

definition is_sha256 :: "string \<Rightarrow> bool" where
  "is_sha256 h = (length h = 64 \<and> list_all is_lower_hex h)"

subsection \<open>The resolved spec\<close>

text \<open>
  What the recipe reads from \<^verbatim>\<open>self.spec\<close> and \<^verbatim>\<open>self.prefix\<close>: the version of the
  package as its list of numeric components, the state of the \<^verbatim>\<open>gui\<close> variant, the
  install prefix of the package, and for each dependency name its install prefix and
  its version. A concrete spec holds every declared dependency, so the two lookups
  are total.
\<close>

type_synonym version = "nat list"

record spec =
  pkg_version :: version
  variant_gui :: bool
  pkg_prefix :: string
  dep_prefix :: "string \<Rightarrow> string"
  dep_version :: "string \<Rightarrow> version"

text \<open>
  \<^verbatim>\<open>Prefix.join\<close> and attribute access on a \<^verbatim>\<open>Prefix\<close> are \<^verbatim>\<open>os.path.join\<close> of
  the prefix and the name (two arguments, POSIX).
\<close>

definition path_join :: "string \<Rightarrow> string \<Rightarrow> string" where
  "path_join a b =
     (if b \<noteq> [] \<and> hd b = CHR ''/'' then b
      else if a = [] \<or> last a = CHR ''/'' then a @ b
      else a @ ''/'' @ b)"

definition bin :: "string \<Rightarrow> string" where
  "bin p = path_join p ''bin''"

subsection \<open>configure_args\<close>

definition configure_args :: "spec \<Rightarrow> string list" where
  "configure_args c =
     (let args =
        [''--with-pgconfig='' @ path_join (bin (dep_prefix c ''postgresql'')) ''pg_config'',
         ''--with-sfcgal='' @ path_join (bin (dep_prefix c ''sfcgal'')) ''sfcgal-config'',
         ''--with-xml2config='' @ path_join (bin (dep_prefix c ''libxml2'')) ''xml2-config'',
         ''--with-geosconfig='' @ path_join (bin (dep_prefix c ''geos'')) ''geos-config'',
         ''--with-projdir='' @ dep_prefix c ''proj'',
         ''--with-jsondir='' @ dep_prefix c ''json-c'',
         ''--with-protobufdir='' @ dep_prefix c ''protobuf-c'',
         ''--with-pcredir='' @ dep_prefix c ''pcre'',
         ''--with-gdalconfig='' @ path_join (bin (dep_prefix c ''gdal'')) ''gdal-config'']
      in if variant_gui c then args @ [''--with-gui''] else args)"

text \<open>The option name of a flag: the text before its first \<open>=\<close>.\<close>

definition flag_name :: "string \<Rightarrow> string" where
  "flag_name f = takeWhile (\<lambda>ch. ch \<noteq> CHR ''='') f"

text \<open>A spec to evaluate the recipe on: PostGIS 3.0.1 against PROJ 8.1.0.\<close>

definition example_spec :: spec where
  "example_spec =
     \<lparr>pkg_version = [3, 0, 1], variant_gui = False, pkg_prefix = ''/opt/postgis'',
      dep_prefix = (\<lambda>n. ''/opt/'' @ n),
      dep_version = (\<lambda>n. if n = ''proj'' then [8, 1, 0] else [1])\<rparr>"

subsection \<open>Exceptions, events and the outside world\<close>

text \<open>
  A Python exception is its class name and its \<^verbatim>\<open>__context__\<close>: the exception that was
  being handled when this one was raised. An exception raised while \<open>e\<close> is in flight
  gets \<open>e\<close> at the end of its context chain.
\<close>

datatype exc = Exc (exc_type: string) (exc_context: "exc option")

fun add_context :: "exc \<Rightarrow> exc \<Rightarrow> exc" where
  "add_context (Exc n None) e = Exc n (Some e)"
| "add_context (Exc n (Some c)) e = Exc n (Some (add_context c e))"

text \<open>
  What the recipe does to the outside: it creates and removes a temporary directory and
  runs executables with argument lists. The state is the trace of these events, oldest
  first, and the set of temporary directories that exist.
\<close>

datatype event = Mkdtemp string | Run string "string list" | Rmtree string

record state =
  trace :: "event list"
  dirs :: "string set"

text \<open>
  The outside world decides what the recipe cannot: whether a temporary directory can be
  created and under which name, whether an executable exists at a path, for each
  command, given everything that happened before it, whether the process fails (with
  which exception) or what it prints, and for the removal of a directory, given
  everything that happened before it, whether it fails (a server that was not stopped
  may still be writing there).
\<close>

record world =
  mkdtemp :: "exc + string"
  executable :: "string \<Rightarrow> bool"
  run :: "event list \<Rightarrow> string \<Rightarrow> string list \<Rightarrow> exc + string"
  rmtree :: "event list \<Rightarrow> string \<Rightarrow> exc option"

text \<open>A statement block: it returns a value or raises, and changes the state.\<close>

type_synonym 'a prog = "state \<Rightarrow> (exc + 'a) \<times> state"

definition ret :: "'a \<Rightarrow> 'a prog" where
  "ret v s = (Inr v, s)"

definition raise :: "exc \<Rightarrow> 'a prog" where
  "raise e s = (Inl e, s)"

definition bind :: "'a prog \<Rightarrow> ('a \<Rightarrow> 'b prog) \<Rightarrow> 'b prog" where
  "bind m f s = (case m s of (Inl e, s1) \<Rightarrow> (Inl e, s1) | (Inr v, s1) \<Rightarrow> f v s1)"

text \<open>
  \<^verbatim>\<open>try: body finally: fin\<close>. The final block runs on both exits of the body. When it
  raises, its exception is the one that leaves the statement; an exception of the body
  that was in flight becomes its context.
\<close>

definition try_finally :: "'a prog \<Rightarrow> 'b prog \<Rightarrow> 'a prog" where
  "try_finally body fin s =
     (case body s of
        (Inr v, s1) \<Rightarrow>
          (case fin s1 of (Inr _, s2) \<Rightarrow> (Inr v, s2) | (Inl e', s2) \<Rightarrow> (Inl e', s2))
      | (Inl e, s1) \<Rightarrow>
          (case fin s1 of
             (Inr _, s2) \<Rightarrow> (Inl e, s2)
           | (Inl e', s2) \<Rightarrow> (Inl (add_context e' e), s2)))"

text \<open>
  The exit of a block that left with \<open>r\<close> when a cleanup step runs on the way out:
  if the step raises, its exception is the one that leaves, and an exception that was
  in flight becomes its context.
\<close>

definition cleaned :: "exc option \<Rightarrow> exc + 'a \<Rightarrow> exc + 'a" where
  "cleaned failure r =
     (case failure of
        None \<Rightarrow> r
      | Some e' \<Rightarrow> (case r of Inr _ \<Rightarrow> Inl e' | Inl e \<Rightarrow> Inl (add_context e' e)))"

text \<open>
  \<^verbatim>\<open>with tempfile.TemporaryDirectory() as data_dir: body\<close>. The directory is created on
  entry. When the block is left, on either exit, the removal of the directory is
  attempted once. If the removal succeeds the directory is gone and the exit of the
  block is that of the body; if it fails (cleanup errors are not ignored by default) the
  directory stays and the error of the removal leaves the block.
\<close>

definition TemporaryDirectory :: "world \<Rightarrow> (string \<Rightarrow> 'a prog) \<Rightarrow> 'a prog" where
  "TemporaryDirectory w body s =
     (case mkdtemp w of
        Inl e \<Rightarrow> (Inl e, s)
      | Inr d \<Rightarrow>
          (case body d (s\<lparr>trace := trace s @ [Mkdtemp d], dirs := insert d (dirs s)\<rparr>) of
             (r, s1) \<Rightarrow>
               (cleaned (rmtree w (trace s1) d) r,
                s1\<lparr>trace := trace s1 @ [Rmtree d],
                   dirs := (if rmtree w (trace s1) d = None then dirs s1 - {d}
                            else dirs s1)\<rparr>)))"

text \<open>
  An \<^verbatim>\<open>Executable\<close>, possibly wrapped by \<^verbatim>\<open>functools.partial\<close>: the path of the program
  and the arguments already bound. \<^verbatim>\<open>which\<close> gives \<^verbatim>\<open>None\<close> when nothing executable is at
  the path. Calling runs the program with the bound arguments followed by the given
  ones; the command is recorded, and it raises when the process fails. Calling \<^verbatim>\<open>None\<close>,
  or wrapping it by \<^verbatim>\<open>functools.partial\<close>, raises \<^verbatim>\<open>TypeError\<close>.
\<close>

datatype callable = Callable (exe: string) (bound: "string list")

definition which :: "world \<Rightarrow> string \<Rightarrow> callable option" where
  "which w p = (if executable w p then Some (Callable p []) else None)"

definition call :: "world \<Rightarrow> callable \<Rightarrow> string list \<Rightarrow> string prog" where
  "call w f args s =
     (run w (trace s) (exe f) (bound f @ args),
      s\<lparr>trace := trace s @ [Run (exe f) (bound f @ args)]\<rparr>)"

definition call_opt :: "world \<Rightarrow> callable option \<Rightarrow> string list \<Rightarrow> string prog" where
  "call_opt w f args =
     (case f of None \<Rightarrow> raise (Exc ''TypeError'' None) | Some g \<Rightarrow> call w g args)"

definition partial :: "callable option \<Rightarrow> string list \<Rightarrow> callable prog" where
  "partial f args =
     (case f of
        None \<Rightarrow> raise (Exc ''TypeError'' None)
      | Some g \<Rightarrow> ret (Callable (exe g) (bound g @ args)))"

subsection \<open>The postgresql context manager\<close>

text \<open>
  \<^verbatim>\<open>with self.postgresql() as psql: body\<close>. The generator runs up to its \<^verbatim>\<open>yield\<close> on
  entry, the block runs with the yielded value, and the generator is resumed (or the
  exception of the block is thrown into it at the \<^verbatim>\<open>yield\<close>) on exit: the block stands
  where the \<^verbatim>\<open>yield\<close> is.
\<close>

definition postgresql :: "world \<Rightarrow> spec \<Rightarrow> (callable \<Rightarrow> 'a prog) \<Rightarrow> 'a prog" where
  "postgresql w c body =
     (let postgresql_bin_dir = bin (dep_prefix c ''postgresql'');
          pg_ctl = which w (path_join postgresql_bin_dir ''pg_ctl'')
      in TemporaryDirectory w (\<lambda>data_dir.
           bind (call_opt w pg_ctl [''init'', ''-D'', data_dir, ''-o'', ''-A trust'']) (\<lambda>_.
           bind (call_opt w pg_ctl
                   [''start'', ''-D'', data_dir, ''-o'',
                    ''-h '' @ [CHR 0x27, CHR 0x27] @ '' -k '' @ data_dir]) (\<lambda>_.
           try_finally
             (let psql = which w (path_join postgresql_bin_dir ''psql'')
              in bind (partial psql [''-h'', data_dir]) body)
             (call_opt w pg_ctl [''stop'', ''-D'', data_dir])))))"

text \<open>The commands of the session, named for the statements below.\<close>

definition pg_ctl_path :: "spec \<Rightarrow> string" where
  "pg_ctl_path c = path_join (bin (dep_prefix c ''postgresql'')) ''pg_ctl''"

definition psql_path :: "spec \<Rightarrow> string" where
  "psql_path c = path_join (bin (dep_prefix c ''postgresql'')) ''psql''"

definition init_args :: "string \<Rightarrow> string list" where
  "init_args d = [''init'', ''-D'', d, ''-o'', ''-A trust'']"

definition start_args :: "string \<Rightarrow> string list" where
  "start_args d = [''start'', ''-D'', d, ''-o'', ''-h '' @ [CHR 0x27, CHR 0x27] @ '' -k '' @ d]"

definition stop_args :: "string \<Rightarrow> string list" where
  "stop_args d = [''stop'', ''-D'', d]"


text \<open>
  The acquire phase succeeds from state \<open>s\<close> with directory \<open>d\<close>: the directory is
  created, both executables are found, and init and start do not fail. The block then
  starts in state \<open>acquired\<close>.
\<close>

definition acquires :: "world \<Rightarrow> spec \<Rightarrow> state \<Rightarrow> string \<Rightarrow> bool" where
  "acquires w c s d =
     (mkdtemp w = Inr d \<and> executable w (pg_ctl_path c) \<and> executable w (psql_path c)
      \<and> \<not> isl (run w (trace s @ [Mkdtemp d]) (pg_ctl_path c) (init_args d))
      \<and> \<not> isl (run w (trace s @ [Mkdtemp d, Run (pg_ctl_path c) (init_args d)])
                 (pg_ctl_path c) (start_args d)))"

definition acquired :: "spec \<Rightarrow> string \<Rightarrow> state \<Rightarrow> state" where
  "acquired c d s =
     s\<lparr>trace := trace s @ [Mkdtemp d, Run (pg_ctl_path c) (init_args d),
                           Run (pg_ctl_path c) (start_args d)],
       dirs := insert d (dirs s)\<rparr>"

text \<open>
  The exit of a \<^verbatim>\<open>try\<close> statement whose body left with \<open>r\<close> and whose final block is the
  one command with outcome \<open>stop\<close>.
\<close>

definition released :: "exc + string \<Rightarrow> exc + 'a \<Rightarrow> exc + 'a" where
  "released stop r =
     (case stop of
        Inr _ \<Rightarrow> r
      | Inl e' \<Rightarrow> (case r of Inr _ \<Rightarrow> Inl e' | Inl e \<Rightarrow> Inl (add_context e' e)))"

subsection \<open>test_lib_version\<close>

text \<open>\<^verbatim>\<open>str(self.spec.version)\<close>: the components in decimal, joined by dots.\<close>

function show_nat :: "nat \<Rightarrow> string" where
  "show_nat n =
     (if n < 10 then [''0123456789'' ! n]
      else show_nat (n div 10) @ [''0123456789'' ! (n mod 10)])"
  by pat_completeness auto
termination
  by (relation "measure id") auto

declare show_nat.simps [simp del]

fun str_version :: "version \<Rightarrow> string" where
  "str_version [] = []"
| "str_version [n] = show_nat n"
| "str_version (n # ns) = show_nat n @ ''.'' @ str_version ns"

text \<open>
  Modelled from the spec: \<^verbatim>\<open>check_outputs\<close> is a helper of the framework whose source is
  not part of the recipe. The spec words it as: assert that the output contains the
  expected string as a substring; a mismatch is a failure of the test.
\<close>

definition check_outputs :: "string \<Rightarrow> string \<Rightarrow> unit prog" where
  "check_outputs expected actual =
     (if sublist expected actual then ret () else raise (Exc ''RuntimeError'' None))"

definition test_lib_version :: "world \<Rightarrow> spec \<Rightarrow> unit prog" where
  "test_lib_version w c =
     postgresql w c (\<lambda>psql.
       bind (call w psql [''-c'', ''CREATE EXTENSION postgis'', ''postgres'']) (\<lambda>_.
       bind (call w psql [''-c'', ''SELECT PostGIS_Lib_Version()'', ''-t'', ''postgres''])
         (\<lambda>version.
       check_outputs (str_version (pkg_version c)) version)))"

subsection \<open>satisfy_sanity_check\<close>

text \<open>
  The install tree: what is at each path. The parent of a path is what
  \<^verbatim>\<open>os.path.dirname\<close> gives: the text up to the last slash, without trailing slashes
  unless it consists of slashes only.
\<close>

datatype node = Dir | File | Symlink string

type_synonym files = "string \<rightharpoonup> node"

definition dirname :: "string \<Rightarrow> string" where
  "dirname p =
     (let head = rev (dropWhile (\<lambda>ch. ch \<noteq> CHR ''/'') (rev p))
      in if head \<noteq> [] \<and> \<not> list_all (\<lambda>ch. ch = CHR ''/'') head
         then rev (dropWhile (\<lambda>ch. ch = CHR ''/'') (rev head))
         else head)"

text \<open>
  What a path leads to when symbolic links are followed, at most as many as the number
  given; a missing path and a chain of links that is too long are errors.
\<close>

fun follow :: "nat \<Rightarrow> files \<Rightarrow> string \<Rightarrow> exc + node" where
  "follow 0 t p = Inl (Exc ''OSError'' None)"
| "follow (Suc n) t p =
     (case t p of
        None \<Rightarrow> Inl (Exc ''FileNotFoundError'' None)
      | Some Dir \<Rightarrow> Inr Dir
      | Some File \<Rightarrow> Inr File
      | Some (Symlink q) \<Rightarrow> follow n t q)"

text \<open>
  \<^verbatim>\<open>os.symlink(src, dst)\<close> creates a link at \<open>dst\<close> that points to \<open>src\<close>. It raises
  \<^verbatim>\<open>FileNotFoundError\<close> when the parent of \<open>dst\<close> is missing, \<^verbatim>\<open>NotADirectoryError\<close> when
  the parent is not a directory, and \<^verbatim>\<open>FileExistsError\<close> when something is at \<open>dst\<close>
  already; then the tree is unchanged.
\<close>

definition symlink :: "string \<Rightarrow> string \<Rightarrow> files \<Rightarrow> exc + files" where
  "symlink src dst t =
     (case follow 40 t (dirname dst) of
        Inl e \<Rightarrow> Inl e
      | Inr Dir \<Rightarrow>
          (if t dst \<noteq> None then Inl (Exc ''FileExistsError'' None)
           else Inr (t(dst \<mapsto> Symlink src)))
      | Inr _ \<Rightarrow> Inl (Exc ''NotADirectoryError'' None))"

definition satisfy_sanity_check :: "spec \<Rightarrow> files \<Rightarrow> exc + files" where
  "satisfy_sanity_check c t =
     symlink (dep_prefix c ''postgresql'') (path_join (pkg_prefix c) ''postgresql'') t"

subsection \<open>patch\<close>

text \<open>
  Modelled from the spec: \<^verbatim>\<open>Spec.satisfies\<close> and the order of versions belong to the
  framework, whose source is not part of the recipe. The spec words the constraint
  \<^verbatim>\<open>@:3.1.1 ^proj@8:\<close> as: the version of the package is at most 3.1.1 and the version
  of the dependency is at least 8. Versions are compared component by component, a
  proper prefix being the smaller; a range holds the versions between its two bounds,
  a missing bound being open; a constraint is a range for the package and one for each
  named dependency.
\<close>

fun version_le :: "version \<Rightarrow> version \<Rightarrow> bool" where
  "version_le [] _ = True"
| "version_le (x # xs) [] = False"
| "version_le (x # xs) (y # ys) = (x < y \<or> (x = y \<and> version_le xs ys))"

datatype vrange = VRange "version option" "version option"

fun in_range :: "version \<Rightarrow> vrange \<Rightarrow> bool" where
  "in_range v (VRange lo hi) =
     ((case lo of None \<Rightarrow> True | Some l \<Rightarrow> version_le l v)
      \<and> (case hi of None \<Rightarrow> True | Some h \<Rightarrow> version_le v h))"

datatype constraint = Constraint vrange "(string \<times> vrange) list"

fun satisfies :: "spec \<Rightarrow> constraint \<Rightarrow> bool" where
  "satisfies c (Constraint r ds) =
     (in_range (pkg_version c) r \<and> list_all (\<lambda>(n, dr). in_range (dep_version c n) dr) ds)"

text \<open>
  Modelled from the spec: \<^verbatim>\<open>filter_file\<close> is a helper of the framework whose source is
  not part of the recipe. The spec words it as a pure textual substitution in the
  named file. The pattern of the recipe is a literal between two \<^verbatim>\<open>\b\<close>: it matches the
  literal where a word character (letter, digit, underscore) meets a non-word character
  or an end of the text on each side. Matches are replaced from left to right; the flag
  says whether the character before the position is a word character.
\<close>

definition is_word :: "char \<Rightarrow> bool" where
  "is_word ch =
     (ch \<in> set ''abcdefghijklmnopqrstuvwxyzABCDEFGHIJKLMNOPQRSTUVWXYZ0123456789_'')"

definition word_follows :: "string \<Rightarrow> bool" where
  "word_follows t = (case t of [] \<Rightarrow> False | ch # _ \<Rightarrow> is_word ch)"

definition matches_at :: "string \<Rightarrow> bool \<Rightarrow> string \<Rightarrow> bool" where
  "matches_at pat prev t =
     (pat \<noteq> [] \<and> prefix pat t \<and> prev \<noteq> is_word (hd pat)
      \<and> is_word (last pat) \<noteq> word_follows (drop (length pat) t))"

function sub_word :: "string \<Rightarrow> string \<Rightarrow> bool \<Rightarrow> string \<Rightarrow> string" where
  "sub_word pat repl prev [] = []"
| "sub_word pat repl prev (ch # t) =
     (if matches_at pat prev (ch # t)
      then repl @ sub_word pat repl (is_word (last pat)) (drop (length pat) (ch # t))
      else ch # sub_word pat repl (is_word ch) t)"
  by pat_completeness auto
termination
  by (relation "measure (\<lambda>(pat, repl, prev, t). length t)") (auto simp: matches_at_def)

declare sub_word.simps(2) [simp del]

datatype regex = Word string

type_synonym sources = "string \<rightharpoonup> string"

fun filter_file :: "regex \<Rightarrow> string \<Rightarrow> string \<Rightarrow> sources \<Rightarrow> exc + sources" where
  "filter_file (Word pat) repl name fs =
     (case fs name of
        None \<Rightarrow> Inl (Exc ''FileNotFoundError'' None)
      | Some text \<Rightarrow> Inr (fs(name \<mapsto> sub_word pat repl False text)))"

definition patch :: "spec \<Rightarrow> sources \<Rightarrow> exc + sources" where
  "patch c fs =
     (if satisfies c (Constraint (VRange None (Some [3, 1, 1]))
                       [(''proj'', VRange (Some [8]) None)])
      then filter_file (Word ''pj_get_release'') ''proj_info'' ''configure'' fs
      else Inr fs)"

subsection \<open>Worlds to evaluate the session in\<close>

text \<open>
  A world where everything works and the server reports version 3.0.1; worlds where the
  pg_ctl command of one name fails; a world where the stop command fails and the
  removal of the directory fails after it; a block that returns at once; a block that
  raises at once; a block that passes a host of its own to psql.
\<close>

definition ok_world :: world where
  "ok_world =
     \<lparr>mkdtemp = Inr ''/tmp/pgdata'', executable = (\<lambda>p. True),
      run = (\<lambda>tr p args.
        Inr (if ''SELECT PostGIS_Lib_Version()'' \<in> set args then '' 3.0.1'' else [])),
      rmtree = (\<lambda>tr d. None)\<rparr>"

definition failing_world :: "string \<Rightarrow> world" where
  "failing_world cmd =
     ok_world\<lparr>run := (\<lambda>tr p args.
        if args \<noteq> [] \<and> hd args = cmd then Inl (Exc ''ProcessError'' None)
        else run ok_world tr p args)\<rparr>"

definition unstopped_world :: world where
  "unstopped_world =
     (failing_world ''stop'')\<lparr>rmtree := (\<lambda>tr d. Some (Exc ''OSError'' None))\<rparr>"


definition returning_body :: "callable \<Rightarrow> unit prog" where
  "returning_body psql = ret ()"

definition raising_body :: "callable \<Rightarrow> unit prog" where
  "raising_body psql = raise (Exc ''AssertionError'' None)"

definition empty_state :: state where
  "empty_state = \<lparr>trace = [], dirs = {}\<rparr>"

section \<open>Properties\<close>

text \<open>
  C8. In the declared version table every version string occurs once, so it maps to
  exactly one content hash, and every declared hash is a string of 64 lowercase
  hexadecimal digits.
\<close>

theorem versions_hashes:
  "distinct (map fst versions) \<and> list_all (\<lambda>(v, h). is_sha256 h) versions"
  by (simp add: versions_def is_sha256_def is_lower_hex_def)

theorem versions_hashes_witness:
  "map_of versions ''3.0.1'' =
     Some ''5a5432f95150d9bae9215c6d1c7bb354e060482a7c379daa9b8384e1d03e6353''
   \<and> distinct (map fst versions) \<and> list_all (\<lambda>(v, h). is_sha256 h) versions"
  using versions_hashes by (simp add: versions_def)

text \<open>
  C3. configure_args is a function of the resolved spec. Its first nine flags do not
  depend on the gui variant and carry the nine option names in the order of the
  source; the list has ten flags when the gui variant is on, the tenth being
  \<^verbatim>\<open>--with-gui\<close>, and nine when it is off.
\<close>

theorem configure_args_flags:
  "map flag_name (take 9 (configure_args c)) =
     [''--with-pgconfig'', ''--with-sfcgal'', ''--with-xml2config'', ''--with-geosconfig'',
      ''--with-projdir'', ''--with-jsondir'', ''--with-protobufdir'', ''--with-pcredir'',
      ''--with-gdalconfig'']
   \<and> take 9 (configure_args (c\<lparr>variant_gui := g\<rparr>)) = take 9 (configure_args c)
   \<and> configure_args c =
       take 9 (configure_args c) @ (if variant_gui c then [''--with-gui''] else [])
   \<and> length (configure_args c) = (if variant_gui c then 10 else 9)"
  by (simp add: configure_args_def flag_name_def Let_def)

theorem configure_args_flags_witness:
  "configure_args example_spec =
     [''--with-pgconfig=/opt/postgresql/bin/pg_config'',
      ''--with-sfcgal=/opt/sfcgal/bin/sfcgal-config'',
      ''--with-xml2config=/opt/libxml2/bin/xml2-config'',
      ''--with-geosconfig=/opt/geos/bin/geos-config'',
      ''--with-projdir=/opt/proj'',
      ''--with-jsondir=/opt/json-c'',
      ''--with-protobufdir=/opt/protobuf-c'',
      ''--with-pcredir=/opt/pcre'',
      ''--with-gdalconfig=/opt/gdal/bin/gdal-config'']
   \<and> length (configure_args example_spec) = 9
   \<and> configure_args (example_spec\<lparr>variant_gui := True\<rparr>) ! 9 = ''--with-gui''
   \<and> length (configure_args (example_spec\<lparr>variant_gui := True\<rparr>)) = 10"
  using configure_args_flags [of example_spec] configure_args_flags [of "example_spec\<lparr>variant_gui := True\<rparr>"]
  by (simp add: configure_args_def example_spec_def path_join_def bin_def Let_def)

subsection \<open>The session\<close>

lemma call_opt_Some:
  "call_opt w (Some (Callable p [])) args s =
     (run w (trace s) p args, s\<lparr>trace := trace s @ [Run p args]\<rparr>)"
  by (simp add: call_opt_def call_def)

lemma try_finally_released:
  assumes "body s = (r, s1)" and "fin s1 = (x, s2)"
  shows "try_finally body fin s = (released x r, s2)"
  using assms by (simp add: try_finally_def released_def split: sum.splits)

text \<open>
  The session when the acquire phase succeeds: the block runs from the acquired state with
  psql bound to the directory, then the stop command runs, then the removal of the
  directory is attempted.
\<close>

lemma postgresql_run:
  assumes acq: "acquires w c s d"
    and body: "body (Callable (psql_path c) [''-h'', d]) (acquired c d s) = (r, s2)"
  shows "postgresql w c body s =
     (cleaned (rmtree w (trace s2 @ [Run (pg_ctl_path c) (stop_args d)]) d)
        (released (run w (trace s2) (pg_ctl_path c) (stop_args d)) r),
      s2\<lparr>trace := trace s2 @ [Run (pg_ctl_path c) (stop_args d), Rmtree d],
         dirs := (if rmtree w (trace s2 @ [Run (pg_ctl_path c) (stop_args d)]) d = None
                  then dirs s2 - {d} else dirs s2)\<rparr>)"
proof -
  let ?pg = "pg_ctl_path c"
  let ?s0 = "s\<lparr>trace := trace s @ [Mkdtemp d], dirs := insert d (dirs s)\<rparr>"
  let ?s1 = "?s0\<lparr>trace := trace ?s0 @ [Run ?pg (init_args d)]\<rparr>"
  let ?s2 = "?s1\<lparr>trace := trace ?s1 @ [Run ?pg (start_args d)]\<rparr>"
  from acq have tmp: "mkdtemp w = Inr d"
    and pg: "which w ?pg = Some (Callable ?pg [])"
    and psql: "which w (psql_path c) = Some (Callable (psql_path c) [])"
    by (simp_all add: acquires_def which_def)
  from acq obtain o1 where init: "run w (trace ?s0) ?pg (init_args d) = Inr o1"
    by (cases "run w (trace s @ [Mkdtemp d]) ?pg (init_args d)") (simp_all add: acquires_def)
  from acq obtain o2 where start: "run w (trace ?s1) ?pg (start_args d) = Inr o2"
    by (cases "run w (trace s @ [Mkdtemp d, Run ?pg (init_args d)]) ?pg (start_args d)")
      (simp_all add: acquires_def)
  have s2: "?s2 = acquired c d s"
    by (simp add: acquired_def)
  have i: "call_opt w (Some (Callable ?pg [])) (init_args d) ?s0 = (Inr o1, ?s1)"
    using init by (simp only: call_opt_Some)
  have st: "call_opt w (Some (Callable ?pg [])) (start_args d) ?s1 = (Inr o2, ?s2)"
    using start by (simp only: call_opt_Some)
  have bd: "(let psql = which w (psql_path c) in bind (partial psql [''-h'', d]) body) ?s2 = (r, s2)"
  proof -
    from body have "body (Callable (psql_path c) [''-h'', d]) ?s2 = (r, s2)"
      by (simp only: s2)
    then show ?thesis
      by (simp add: psql partial_def bind_def ret_def)
  qed
  have fin: "call_opt w (Some (Callable ?pg [])) (stop_args d) s2 =
      (run w (trace s2) ?pg (stop_args d), s2\<lparr>trace := trace s2 @ [Run ?pg (stop_args d)]\<rparr>)"
    by (simp only: call_opt_Some)
  have "postgresql w c body s =
     (case try_finally
             (let psql = which w (psql_path c) in bind (partial psql [''-h'', d]) body)
             (call_opt w (Some (Callable ?pg [])) (stop_args d)) ?s2 of
        (r, s1) \<Rightarrow>
          (cleaned (rmtree w (trace s1) d) r,
           s1\<lparr>trace := trace s1 @ [Rmtree d],
              dirs := (if rmtree w (trace s1) d = None then dirs s1 - {d} else dirs s1)\<rparr>))"
    unfolding postgresql_def TemporaryDirectory_def Let_def
    using tmp pg i st
    by (simp add: pg_ctl_path_def [symmetric] psql_path_def [symmetric] init_args_def
        start_args_def stop_args_def bind_def Let_def)
  also have "try_finally
             (let psql = which w (psql_path c) in bind (partial psql [''-h'', d]) body)
             (call_opt w (Some (Callable ?pg [])) (stop_args d)) ?s2 =
      (released (run w (trace s2) ?pg (stop_args d)) r,
       s2\<lparr>trace := trace s2 @ [Run ?pg (stop_args d)]\<rparr>)"
    by (rule try_finally_released) (rule bd, rule fin)
  finally show ?thesis
    by simp
qed

text \<open>
  C1, amended. When the acquire phase succeeded and the block left with \<open>r\<close> in state
  \<open>s2\<close>, normally or by raising: the stop command is issued and then the removal of the
  directory is attempted, each exactly once after the block; the directory is gone when
  the removal succeeds and stays when it fails. When both steps succeed the session
  leaves with exactly \<open>r\<close>, so an error of the block propagates unchanged; an error of the
  block is never turned into a normal exit. When a step fails while an error of the
  block is in flight, the error of the failing step is the one that propagates, with the
  errors before it as its context: that of the stop command when only it fails, that of
  the removal when the removal fails.
\<close>

theorem postgresql_release:
  assumes "acquires w c s d"
    and "body (Callable (psql_path c) [''-h'', d]) (acquired c d s) = (r, s2)"
    and "run w (trace s2) (pg_ctl_path c) (stop_args d) = stop"
    and "rmtree w (trace s2 @ [Run (pg_ctl_path c) (stop_args d)]) d = removal"
  shows "trace (snd (postgresql w c body s)) =
           trace s2 @ [Run (pg_ctl_path c) (stop_args d), Rmtree d]
       \<and> (removal = None \<longrightarrow> dirs (snd (postgresql w c body s)) = dirs s2 - {d})
       \<and> (removal \<noteq> None \<longrightarrow> dirs (snd (postgresql w c body s)) = dirs s2)
       \<and> (\<not> isl stop \<and> removal = None \<longrightarrow> fst (postgresql w c body s) = r)
       \<and> (isl r \<longrightarrow> isl (fst (postgresql w c body s)))
       \<and> (\<forall>e e'. r = Inl e \<and> stop = Inl e' \<and> removal = None \<longrightarrow>
            fst (postgresql w c body s) = Inl (add_context e' e))
       \<and> (\<forall>e e''. r = Inl e \<and> \<not> isl stop \<and> removal = Some e'' \<longrightarrow>
            fst (postgresql w c body s) = Inl (add_context e'' e))
       \<and> (\<forall>e e' e''. r = Inl e \<and> stop = Inl e' \<and> removal = Some e'' \<longrightarrow>
            fst (postgresql w c body s) = Inl (add_context e'' (add_context e' e)))"
  using assms(3,4)
  by (auto simp: postgresql_run [where body = body, OF assms(1,2)] released_def cleaned_def
      isl_def split: sum.splits option.splits)

theorem postgresql_release_witness:
  "acquires ok_world example_spec empty_state ''/tmp/pgdata''
   \<and> fst (postgresql ok_world example_spec raising_body empty_state) =
       Inl (Exc ''AssertionError'' None)
   \<and> trace (snd (postgresql ok_world example_spec raising_body empty_state)) =
       [Mkdtemp ''/tmp/pgdata'',
        Run ''/opt/postgresql/bin/pg_ctl'' (init_args ''/tmp/pgdata''),
        Run ''/opt/postgresql/bin/pg_ctl'' (start_args ''/tmp/pgdata''),
        Run ''/opt/postgresql/bin/pg_ctl'' [''stop'', ''-D'', ''/tmp/pgdata''],
        Rmtree ''/tmp/pgdata'']
   \<and> dirs (snd (postgresql ok_world example_spec raising_body empty_state)) = {}"
proof -
  have acq: "acquires ok_world example_spec empty_state ''/tmp/pgdata''"
    by (simp add: acquires_def ok_world_def)
  have body: "raising_body (Callable (psql_path example_spec) [''-h'', ''/tmp/pgdata''])
      (acquired example_spec ''/tmp/pgdata'' empty_state) =
      (Inl (Exc ''AssertionError'' None), acquired example_spec ''/tmp/pgdata'' empty_state)"
    by (simp add: raising_body_def raise_def)
  have stop: "run ok_world (trace (acquired example_spec ''/tmp/pgdata'' empty_state))
      (pg_ctl_path example_spec) (stop_args ''/tmp/pgdata'') = Inr []"
    by (simp add: ok_world_def stop_args_def)
  have rm: "rmtree ok_world (trace (acquired example_spec ''/tmp/pgdata'' empty_state) @
      [Run (pg_ctl_path example_spec) (stop_args ''/tmp/pgdata'')]) ''/tmp/pgdata'' = None"
    by (simp add: ok_world_def)
  have pg: "pg_ctl_path example_spec = ''/opt/postgresql/bin/pg_ctl''"
    by (simp add: pg_ctl_path_def example_spec_def bin_def path_join_def)
  show ?thesis
    using postgresql_release [where body = raising_body, OF acq body stop rm] acq
    by (simp add: acquired_def empty_state_def pg stop_args_def)
qed

text \<open>
  C1 as stated fails: with a block that raises \<^verbatim>\<open>AssertionError\<close>, a stop command that
  fails and a removal that fails after it, the error that reaches the caller is the
  \<^verbatim>\<open>OSError\<close> of the removal and the directory is still there; with a removal that
  succeeds, the error that reaches the caller is the \<^verbatim>\<open>ProcessError\<close> of the stop command.
\<close>

theorem postgresql_cleanup_failure_counterexample:
  "fst (postgresql unstopped_world example_spec raising_body empty_state) =
     Inl (Exc ''OSError'' (Some (Exc ''ProcessError'' (Some (Exc ''AssertionError'' None)))))
   \<and> fst (postgresql unstopped_world example_spec raising_body empty_state) \<noteq>
     Inl (Exc ''AssertionError'' None)
   \<and> ''/tmp/pgdata'' \<in> dirs (snd (postgresql unstopped_world example_spec raising_body
        empty_state))
   \<and> fst (postgresql (failing_world ''stop'') example_spec raising_body empty_state) =
     Inl (Exc ''ProcessError'' (Some (Exc ''AssertionError'' None)))"
  by (simp add: postgresql_def TemporaryDirectory_def bind_def try_finally_def call_opt_def
      call_def which_def partial_def raising_body_def raise_def ret_def failing_world_def
      unstopped_world_def ok_world_def empty_state_def cleaned_def Let_def)

text \<open>
  C4. When the acquire phase fails, the error reaches the caller and the block never
  runs: the session leaves with an error whatever the block is, and the trace holds each
  attempted command once and nothing of the block. The error is that of the failing step
  (it is the context of the error of the removal, should the removal of the directory
  fail on the way out). This covers a pg_ctl that is not found, a failing init (start is
  then not attempted), and a failing start after a successful init. No stop command is
  issued.
\<close>

theorem postgresql_acquire_failure:
  assumes "mkdtemp w = Inr d"
  shows "(\<not> executable w (pg_ctl_path c) \<longrightarrow>
            postgresql w c body s =
              (Inl (case rmtree w (trace s @ [Mkdtemp d]) d of
                      None \<Rightarrow> Exc ''TypeError'' None
                    | Some e'' \<Rightarrow> add_context e'' (Exc ''TypeError'' None)),
               s\<lparr>trace := trace s @ [Mkdtemp d, Rmtree d],
                 dirs := (if rmtree w (trace s @ [Mkdtemp d]) d = None then dirs s - {d}
                          else insert d (dirs s))\<rparr>))
       \<and> (executable w (pg_ctl_path c)
            \<and> run w (trace s @ [Mkdtemp d]) (pg_ctl_path c) (init_args d) = Inl e \<longrightarrow>
            postgresql w c body s =
              (Inl (case rmtree w (trace s @ [Mkdtemp d, Run (pg_ctl_path c) (init_args d)]) d of
                      None \<Rightarrow> e
                    | Some e'' \<Rightarrow> add_context e'' e),
               s\<lparr>trace := trace s @ [Mkdtemp d, Run (pg_ctl_path c) (init_args d), Rmtree d],
                 dirs := (if rmtree w (trace s @ [Mkdtemp d, Run (pg_ctl_path c) (init_args d)]) d
                             = None
                          then dirs s - {d} else insert d (dirs s))\<rparr>))
       \<and> (executable w (pg_ctl_path c)
            \<and> run w (trace s @ [Mkdtemp d]) (pg_ctl_path c) (init_args d) = Inr out
            \<and> run w (trace s @ [Mkdtemp d, Run (pg_ctl_path c) (init_args d)])
                 (pg_ctl_path c) (start_args d) = Inl e \<longrightarrow>
            postgresql w c body s =
              (Inl (case rmtree w (trace s @ [Mkdtemp d, Run (pg_ctl_path c) (init_args d),
                                              Run (pg_ctl_path c) (start_args d)]) d of
                      None \<Rightarrow> e
                    | Some e'' \<Rightarrow> add_context e'' e),
               s\<lparr>trace := trace s @ [Mkdtemp d, Run (pg_ctl_path c) (init_args d),
                                     Run (pg_ctl_path c) (start_args d), Rmtree d],
                 dirs := (if rmtree w (trace s @ [Mkdtemp d, Run (pg_ctl_path c) (init_args d),
                                                  Run (pg_ctl_path c) (start_args d)]) d = None
                          then dirs s - {d} else insert d (dirs s))\<rparr>))"
  using assms
  by (simp add: postgresql_def TemporaryDirectory_def Let_def bind_def call_opt_def call_def
      which_def raise_def pg_ctl_path_def init_args_def start_args_def cleaned_def
      split: option.splits)

theorem postgresql_acquire_failure_witness:
  "mkdtemp (failing_world ''init'') = Inr ''/tmp/pgdata''
   \<and> postgresql (failing_world ''init'') example_spec raising_body empty_state =
       (Inl (Exc ''ProcessError'' None),
        \<lparr>trace = [Mkdtemp ''/tmp/pgdata'',
                  Run ''/opt/postgresql/bin/pg_ctl'' (init_args ''/tmp/pgdata''),
                  Rmtree ''/tmp/pgdata''],
         dirs = {}\<rparr>)
   \<and> fst (postgresql (failing_world ''start'') example_spec raising_body empty_state) =
       Inl (Exc ''ProcessError'' None)
   \<and> trace (snd (postgresql (failing_world ''start'') example_spec raising_body empty_state)) =
       [Mkdtemp ''/tmp/pgdata'',
        Run ''/opt/postgresql/bin/pg_ctl'' (init_args ''/tmp/pgdata''),
        Run ''/opt/postgresql/bin/pg_ctl'' (start_args ''/tmp/pgdata''),
        Rmtree ''/tmp/pgdata'']"
proof -
  have tmp: "mkdtemp (failing_world c) = Inr ''/tmp/pgdata''" for c
    by (simp add: failing_world_def ok_world_def)
  have pg: "pg_ctl_path example_spec = ''/opt/postgresql/bin/pg_ctl''"
    by (simp add: pg_ctl_path_def example_spec_def bin_def path_join_def)
  have ex: "executable (failing_world c) p" for c p
    by (simp add: failing_world_def ok_world_def)
  have rm: "rmtree (failing_world c) tr d = None" for c tr d
    by (simp add: failing_world_def ok_world_def)
  have i: "run (failing_world ''init'') tr p (init_args ''/tmp/pgdata'') = Inl (Exc ''ProcessError'' None)" for tr p
    by (simp add: failing_world_def init_args_def)
  have i2: "run (failing_world ''start'') tr p (init_args ''/tmp/pgdata'') = Inr []" for tr p
    by (simp add: failing_world_def ok_world_def init_args_def)
  have st: "run (failing_world ''start'') tr p (start_args ''/tmp/pgdata'') = Inl (Exc ''ProcessError'' None)" for tr p
    by (simp add: failing_world_def start_args_def)
  show ?thesis
    using postgresql_acquire_failure [where w = "failing_world ''init''" and c = example_spec
        and e = "Exc ''ProcessError'' None" and body = raising_body and s = empty_state
        and out = "[]", OF tmp]
      postgresql_acquire_failure [where w = "failing_world ''start''" and c = example_spec
        and e = "Exc ''ProcessError'' None" and body = raising_body and s = empty_state
        and out = "[]", OF tmp]
    by (simp add: tmp pg ex i i2 st rm empty_state_def)
qed




text \<open>
  C10, amended. When the stop command fails in the release phase, the removal of the
  directory is still attempted, after the failed stop command: the exit of the
  TemporaryDirectory block attempts it whatever the enclosed block does. When the
  removal succeeds the directory is gone and the error of the stop command leaves the
  session; when the removal fails too the directory stays and the error of the removal
  leaves the session, with the error of the stop command as its context.
\<close>

theorem postgresql_stop_failure_removal:
  assumes "acquires w c s d"
    and "body (Callable (psql_path c) [''-h'', d]) (acquired c d s) = (r, s2)"
    and "run w (trace s2) (pg_ctl_path c) (stop_args d) = Inl e'"
    and "rmtree w (trace s2 @ [Run (pg_ctl_path c) (stop_args d)]) d = removal"
  shows "trace (snd (postgresql w c body s)) =
           trace s2 @ [Run (pg_ctl_path c) (stop_args d), Rmtree d]
       \<and> (removal = None \<longrightarrow>
            d \<notin> dirs (snd (postgresql w c body s))
            \<and> fst (postgresql w c body s) =
                Inl (case r of Inr _ \<Rightarrow> e' | Inl e \<Rightarrow> add_context e' e))
       \<and> (\<forall>e''. removal = Some e'' \<longrightarrow>
            dirs (snd (postgresql w c body s)) = dirs s2
            \<and> fst (postgresql w c body s) =
                Inl (add_context e'' (case r of Inr _ \<Rightarrow> e' | Inl e \<Rightarrow> add_context e' e)))
       \<and> last (trace (snd (TemporaryDirectory w blk s))) = Rmtree d"
proof -
  from assms(1) have "mkdtemp w = Inr d"
    by (simp add: acquires_def)
  then have "last (trace (snd (TemporaryDirectory w blk s))) = Rmtree d"
    by (simp add: TemporaryDirectory_def split: prod.splits)
  then show ?thesis
    using postgresql_run [where body = body, OF assms(1,2)] assms(3,4)
    by (auto simp: released_def cleaned_def split: sum.splits)
qed

theorem postgresql_stop_failure_removal_witness:
  "acquires (failing_world ''stop'') example_spec empty_state ''/tmp/pgdata''
   \<and> run (failing_world ''stop'') (trace (acquired example_spec ''/tmp/pgdata'' empty_state))
        (pg_ctl_path example_spec) (stop_args ''/tmp/pgdata'') = Inl (Exc ''ProcessError'' None)
   \<and> ''/tmp/pgdata'' \<notin> dirs (snd (postgresql (failing_world ''stop'') example_spec
        (\<lambda>psql. ret ()) empty_state))
   \<and> fst (postgresql (failing_world ''stop'') example_spec (\<lambda>psql. ret ()) empty_state) =
        Inl (Exc ''ProcessError'' None)
   \<and> trace (snd (postgresql (failing_world ''stop'') example_spec (\<lambda>psql. ret ())
        empty_state)) =
        trace (acquired example_spec ''/tmp/pgdata'' empty_state) @
        [Run (pg_ctl_path example_spec) (stop_args ''/tmp/pgdata''), Rmtree ''/tmp/pgdata'']"
proof -
  have acq: "acquires (failing_world ''stop'') example_spec empty_state ''/tmp/pgdata''"
    by (simp add: acquires_def failing_world_def ok_world_def init_args_def start_args_def)
  have body: "(\<lambda>psql. ret ()) (Callable (psql_path example_spec) [''-h'', ''/tmp/pgdata''])
      (acquired example_spec ''/tmp/pgdata'' empty_state) =
      (Inr (), acquired example_spec ''/tmp/pgdata'' empty_state)"
    by (simp add: ret_def)
  have stop: "run (failing_world ''stop'') (trace (acquired example_spec ''/tmp/pgdata'' empty_state))
        (pg_ctl_path example_spec) (stop_args ''/tmp/pgdata'') = Inl (Exc ''ProcessError'' None)"
    by (simp add: failing_world_def stop_args_def)
  have rm: "rmtree (failing_world ''stop'')
      (trace (acquired example_spec ''/tmp/pgdata'' empty_state) @
       [Run (pg_ctl_path example_spec) (stop_args ''/tmp/pgdata'')]) ''/tmp/pgdata'' = None"
    by (simp add: failing_world_def ok_world_def)
  show ?thesis
    using postgresql_stop_failure_removal [where body = "\<lambda>psql. ret ()"
        and blk = "\<lambda>d. ret ()", OF acq body stop rm] acq stop
    by simp
qed

text \<open>
  C10 as stated fails: in a world where the stop command fails and the removal fails
  after it, the directory is still there when the session is left.
\<close>

theorem postgresql_stop_failure_counterexample:
  "''/tmp/pgdata'' \<in> dirs (snd (postgresql unstopped_world example_spec returning_body
      empty_state))
   \<and> fst (postgresql unstopped_world example_spec returning_body empty_state) =
       Inl (Exc ''OSError'' (Some (Exc ''ProcessError'' None)))
   \<and> trace (snd (postgresql unstopped_world example_spec returning_body empty_state)) =
       [Mkdtemp ''/tmp/pgdata'',
        Run ''/opt/postgresql/bin/pg_ctl'' [''init'', ''-D'', ''/tmp/pgdata'', ''-o'', ''-A trust''],
        Run ''/opt/postgresql/bin/pg_ctl''
          [''start'', ''-D'', ''/tmp/pgdata'', ''-o'',
           ''-h '' @ [CHR 0x27, CHR 0x27] @ '' -k /tmp/pgdata''],
        Run ''/opt/postgresql/bin/pg_ctl'' [''stop'', ''-D'', ''/tmp/pgdata''],
        Rmtree ''/tmp/pgdata'']"
  by (simp add: postgresql_def TemporaryDirectory_def bind_def try_finally_def call_opt_def
      call_def which_def partial_def ret_def returning_body_def failing_world_def unstopped_world_def ok_world_def
      empty_state_def example_spec_def bin_def path_join_def cleaned_def Let_def)

subsection \<open>The verification check\<close>

text \<open>
  C6. When the session is acquired and the two psql commands run, test_lib_version
  issues the fixed query \<^verbatim>\<open>SELECT PostGIS_Lib_Version()\<close> through the session's psql, after
  \<^verbatim>\<open>CREATE EXTENSION postgis\<close> and before the stop command. It succeeds exactly when the
  output of the query contains the version string of the package as a substring and
  the two cleanup steps succeed; when the output does not contain it, the test leaves
  with an error (with successful cleanup steps, the error of the check itself).
\<close>

theorem test_lib_version_checks:
  assumes acq: "acquires w c s d"
    and create: "run w (trace (acquired c d s)) (psql_path c)
        [''-h'', d, ''-c'', ''CREATE EXTENSION postgis'', ''postgres''] = Inr out0"
    and query: "run w
        (trace (acquired c d s) @
         [Run (psql_path c) [''-h'', d, ''-c'', ''CREATE EXTENSION postgis'', ''postgres'']])
        (psql_path c)
        [''-h'', d, ''-c'', ''SELECT PostGIS_Lib_Version()'', ''-t'', ''postgres''] = Inr out"
    and stop: "run w
        (trace (acquired c d s) @
         [Run (psql_path c) [''-h'', d, ''-c'', ''CREATE EXTENSION postgis'', ''postgres''],
          Run (psql_path c)
            [''-h'', d, ''-c'', ''SELECT PostGIS_Lib_Version()'', ''-t'', ''postgres'']])
        (pg_ctl_path c) (stop_args d) = st"
    and removal: "rmtree w
        (trace (acquired c d s) @
         [Run (psql_path c) [''-h'', d, ''-c'', ''CREATE EXTENSION postgis'', ''postgres''],
          Run (psql_path c)
            [''-h'', d, ''-c'', ''SELECT PostGIS_Lib_Version()'', ''-t'', ''postgres''],
          Run (pg_ctl_path c) (stop_args d)]) d = rm"
  shows "trace (snd (test_lib_version w c s)) =
           trace (acquired c d s) @
           [Run (psql_path c) [''-h'', d, ''-c'', ''CREATE EXTENSION postgis'', ''postgres''],
            Run (psql_path c)
              [''-h'', d, ''-c'', ''SELECT PostGIS_Lib_Version()'', ''-t'', ''postgres''],
            Run (pg_ctl_path c) (stop_args d),
            Rmtree d]
       \<and> (fst (test_lib_version w c s) = Inr ()) =
           (sublist (str_version (pkg_version c)) out \<and> \<not> isl st \<and> rm = None)
       \<and> (\<not> sublist (str_version (pkg_version c)) out \<and> \<not> isl st \<and> rm = None \<longrightarrow>
            fst (test_lib_version w c s) = Inl (Exc ''RuntimeError'' None))"
proof -
  let ?psql = "Callable (psql_path c) [''-h'', d]"
  let ?body = "\<lambda>psql.
       bind (call w psql [''-c'', ''CREATE EXTENSION postgis'', ''postgres'']) (\<lambda>_.
       bind (call w psql [''-c'', ''SELECT PostGIS_Lib_Version()'', ''-t'', ''postgres''])
         (\<lambda>version.
       check_outputs (str_version (pkg_version c)) version))"
  let ?r = "if sublist (str_version (pkg_version c)) out then Inr ()
            else Inl (Exc ''RuntimeError'' None)"
  let ?s2 = "(acquired c d s)\<lparr>trace := trace (acquired c d s) @
         [Run (psql_path c) [''-h'', d, ''-c'', ''CREATE EXTENSION postgis'', ''postgres''],
          Run (psql_path c)
            [''-h'', d, ''-c'', ''SELECT PostGIS_Lib_Version()'', ''-t'', ''postgres'']]\<rparr>"
  have b: "?body ?psql (acquired c d s) = (?r, ?s2)"
    using create query
    by (simp add: bind_def call_def check_outputs_def ret_def raise_def)
  have "test_lib_version w c s =
      (cleaned rm (released st ?r),
       ?s2\<lparr>trace := trace ?s2 @ [Run (pg_ctl_path c) (stop_args d), Rmtree d],
           dirs := (if rm = None then dirs ?s2 - {d} else dirs ?s2)\<rparr>)"
    unfolding test_lib_version_def
    using postgresql_run [where body = ?body, OF acq b] stop removal
    by simp
  then show ?thesis
    by (cases st; cases rm) (simp_all add: released_def cleaned_def)
qed

theorem test_lib_version_checks_witness:
  "acquires ok_world example_spec empty_state ''/tmp/pgdata''
   \<and> fst (test_lib_version ok_world example_spec empty_state) = Inr ()
   \<and> fst (test_lib_version ok_world (example_spec\<lparr>pkg_version := [3, 1, 2]\<rparr>) empty_state) =
       Inl (Exc ''RuntimeError'' None)"
proof -
  have acq: "acquires ok_world c empty_state ''/tmp/pgdata''" for c
    by (simp add: acquires_def ok_world_def)
  have r: "run ok_world tr p args =
      Inr (if ''SELECT PostGIS_Lib_Version()'' \<in> set args then '' 3.0.1'' else [])" for tr p args
    by (simp add: ok_world_def)
  have rm: "rmtree ok_world tr d = None" for tr d
    by (simp add: ok_world_def)
  show ?thesis
    using test_lib_version_checks [OF acq r r r rm, of example_spec]
      test_lib_version_checks [OF acq r r r rm, of "example_spec\<lparr>pkg_version := [3, 1, 2]\<rparr>"]
      acq
    by (simp add: example_spec_def show_nat.simps sublist_Cons_right)
qed

subsection \<open>The install tree\<close>

lemma follow_40:
  "follow 40 t p =
     (case t p of
        None \<Rightarrow> Inl (Exc ''FileNotFoundError'' None)
      | Some Dir \<Rightarrow> Inr Dir
      | Some File \<Rightarrow> Inr File
      | Some (Symlink q) \<Rightarrow> follow 39 t q)"
  using follow.simps(2) [of 39 t p] by simp

lemma dirname_path_join:
  assumes "a \<noteq> []" and "last a \<noteq> CHR ''/''"
  shows "dirname (path_join a ''postgresql'') = a"
proof -
  from assms obtain ys y where a: "a = ys @ [y]" and y: "y \<noteq> CHR ''/''"
    by (cases a rule: rev_cases) simp_all
  show ?thesis
    by (simp add: a y dirname_def path_join_def Let_def)
qed

text \<open>
  C7. The link path \<^verbatim>\<open>prefix.postgresql\<close> lies strictly inside the install prefix of the
  package, which is its parent when the prefix has no trailing slash. When the parent
  is a directory and nothing is at the link path, satisfy_sanity_check succeeds, the
  path then holds a symbolic link to the install prefix of the postgresql dependency,
  and it is the only path of the tree that changed. It succeeds in no other case: when
  something is at the path already, or the parent is missing or is a file,
  \<^verbatim>\<open>os.symlink\<close> raises and the tree is not modified.
\<close>

theorem satisfy_sanity_check_link:
  "strict_prefix (pkg_prefix c) (path_join (pkg_prefix c) ''postgresql'')
   \<and> (pkg_prefix c \<noteq> [] \<and> last (pkg_prefix c) \<noteq> CHR ''/'' \<longrightarrow>
        dirname (path_join (pkg_prefix c) ''postgresql'') = pkg_prefix c)
   \<and> (pkg_prefix c \<noteq> [] \<and> last (pkg_prefix c) \<noteq> CHR ''/''
        \<and> t (pkg_prefix c) = Some Dir
        \<and> t (path_join (pkg_prefix c) ''postgresql'') = None \<longrightarrow>
        satisfy_sanity_check c t =
          Inr (t(path_join (pkg_prefix c) ''postgresql'' \<mapsto>
                 Symlink (dep_prefix c ''postgresql''))))
   \<and> (follow 40 t (dirname (path_join (pkg_prefix c) ''postgresql'')) = Inr Dir
        \<and> t (path_join (pkg_prefix c) ''postgresql'') = None \<longrightarrow>
        (\<exists>t'. satisfy_sanity_check c t = Inr t'
           \<and> t' (path_join (pkg_prefix c) ''postgresql'') =
               Some (Symlink (dep_prefix c ''postgresql''))
           \<and> {p. t' p \<noteq> t p} = {path_join (pkg_prefix c) ''postgresql''}))
   \<and> (\<forall>t'. satisfy_sanity_check c t = Inr t' \<longrightarrow>
        follow 40 t (dirname (path_join (pkg_prefix c) ''postgresql'')) = Inr Dir
        \<and> t (path_join (pkg_prefix c) ''postgresql'') = None
        \<and> t' = t(path_join (pkg_prefix c) ''postgresql'' \<mapsto>
                   Symlink (dep_prefix c ''postgresql'')))
   \<and> (follow 40 t (dirname (path_join (pkg_prefix c) ''postgresql'')) = Inr Dir
        \<and> t (path_join (pkg_prefix c) ''postgresql'') \<noteq> None \<longrightarrow>
        satisfy_sanity_check c t = Inl (Exc ''FileExistsError'' None))
   \<and> (t (dirname (path_join (pkg_prefix c) ''postgresql'')) = None \<longrightarrow>
        satisfy_sanity_check c t = Inl (Exc ''FileNotFoundError'' None))
   \<and> (t (dirname (path_join (pkg_prefix c) ''postgresql'')) = Some File \<longrightarrow>
        satisfy_sanity_check c t = Inl (Exc ''NotADirectoryError'' None))"
proof -
  have "strict_prefix (pkg_prefix c) (path_join (pkg_prefix c) ''postgresql'')"
    by (simp add: path_join_def strict_prefix_def)
  moreover have "pkg_prefix c \<noteq> [] \<and> last (pkg_prefix c) \<noteq> CHR ''/'' \<longrightarrow>
      dirname (path_join (pkg_prefix c) ''postgresql'') = pkg_prefix c"
    by (simp add: dirname_path_join)
  moreover have "t (dirname (path_join (pkg_prefix c) ''postgresql'')) = None \<longrightarrow>
      satisfy_sanity_check c t = Inl (Exc ''FileNotFoundError'' None)"
    by (simp add: satisfy_sanity_check_def symlink_def follow_40)
  moreover have "t (dirname (path_join (pkg_prefix c) ''postgresql'')) = Some File \<longrightarrow>
      satisfy_sanity_check c t = Inl (Exc ''NotADirectoryError'' None)"
    by (simp add: satisfy_sanity_check_def symlink_def follow_40)
  moreover have "pkg_prefix c \<noteq> [] \<and> last (pkg_prefix c) \<noteq> CHR ''/''
      \<and> t (pkg_prefix c) = Some Dir
      \<and> t (path_join (pkg_prefix c) ''postgresql'') = None \<longrightarrow>
      satisfy_sanity_check c t =
        Inr (t(path_join (pkg_prefix c) ''postgresql'' \<mapsto>
               Symlink (dep_prefix c ''postgresql'')))"
    by (simp add: satisfy_sanity_check_def symlink_def dirname_path_join follow_40)
  ultimately show ?thesis
    by (auto simp: satisfy_sanity_check_def symlink_def split: sum.splits node.splits if_splits)
qed

theorem satisfy_sanity_check_link_witness:
  "satisfy_sanity_check example_spec [''/opt/postgis'' \<mapsto> Dir] =
     Inr [''/opt/postgis'' \<mapsto> Dir, ''/opt/postgis/postgresql'' \<mapsto> Symlink ''/opt/postgresql'']
   \<and> satisfy_sanity_check example_spec
        [''/opt/postgis'' \<mapsto> Dir, ''/opt/postgis/postgresql'' \<mapsto> Dir] =
     Inl (Exc ''FileExistsError'' None)
   \<and> satisfy_sanity_check example_spec Map.empty = Inl (Exc ''FileNotFoundError'' None)
   \<and> satisfy_sanity_check example_spec [''/opt/postgis'' \<mapsto> File] =
     Inl (Exc ''NotADirectoryError'' None)
   \<and> dirname (path_join (pkg_prefix example_spec) ''postgresql'') = ''/opt/postgis''"
proof -
  have d: "dirname ''/opt/postgis/postgresql'' = ''/opt/postgis''"
    by (simp add: dirname_def)
  have j: "path_join ''/opt/postgis'' ''postgresql'' = ''/opt/postgis/postgresql''"
    by (simp add: path_join_def)
  show ?thesis
    using satisfy_sanity_check_link [of example_spec "[''/opt/postgis'' \<mapsto> Dir]"]
    by (simp add: satisfy_sanity_check_def symlink_def example_spec_def d j follow_40)
qed

subsection \<open>The patch\<close>

text \<open>
  C2. When the version of the package is at most 3.1.1 and the version of proj is at
  least 8, patch rewrites the file \<^verbatim>\<open>configure\<close>, replacing the word \<^verbatim>\<open>pj_get_release\<close> by
  \<^verbatim>\<open>proj_info\<close> (and raises when the file is missing); for every other pair of versions
  the sources are unchanged.
\<close>

theorem patch_fires_iff:
  "(version_le (pkg_version c) [3, 1, 1] \<and> version_le [8] (dep_version c ''proj'') \<longrightarrow>
      patch c fs =
        (case fs ''configure'' of
           None \<Rightarrow> Inl (Exc ''FileNotFoundError'' None)
         | Some text \<Rightarrow>
             Inr (fs(''configure'' \<mapsto> sub_word ''pj_get_release'' ''proj_info'' False text))))
   \<and> (\<not> (version_le (pkg_version c) [3, 1, 1] \<and> version_le [8] (dep_version c ''proj'')) \<longrightarrow>
      patch c fs = Inr fs)"
  by (simp add: patch_def)

theorem patch_fires_iff_witness:
  "patch example_spec [''configure'' \<mapsto> ''v = pj_get_release();''] =
     Inr [''configure'' \<mapsto> ''v = proj_info();'']
   \<and> patch (example_spec\<lparr>pkg_version := [3, 1, 1]\<rparr>) [''configure'' \<mapsto> ''pj_get_release''] =
     Inr [''configure'' \<mapsto> ''proj_info'']
   \<and> patch (example_spec\<lparr>pkg_version := [3, 1, 2]\<rparr>)
        [''configure'' \<mapsto> ''v = pj_get_release();''] =
     Inr [''configure'' \<mapsto> ''v = pj_get_release();'']
   \<and> patch (example_spec\<lparr>dep_version := (\<lambda>n. [7, 2, 1])\<rparr>)
        [''configure'' \<mapsto> ''v = pj_get_release();''] =
     Inr [''configure'' \<mapsto> ''v = pj_get_release();'']"
proof -
  have s1: "sub_word ''pj_get_release'' ''proj_info'' False ''v = pj_get_release();'' =
      ''v = proj_info();''"
    by (simp add: sub_word.simps(2) matches_at_def is_word_def word_follows_def)
  have s2: "sub_word ''pj_get_release'' ''proj_info'' False ''pj_get_release'' = ''proj_info''"
    by (simp add: sub_word.simps(2) matches_at_def is_word_def word_follows_def)
  show ?thesis
    using patch_fires_iff [of example_spec "[''configure'' \<mapsto> ''v = pj_get_release();'']"]
      patch_fires_iff [of "example_spec\<lparr>pkg_version := [3, 1, 1]\<rparr>"
        "[''configure'' \<mapsto> ''pj_get_release'']"]
      patch_fires_iff [of "example_spec\<lparr>pkg_version := [3, 1, 2]\<rparr>"
        "[''configure'' \<mapsto> ''v = pj_get_release();'']"]
      patch_fires_iff [of "example_spec\<lparr>dep_version := (\<lambda>n. [7, 2, 1])\<rparr>"
        "[''configure'' \<mapsto> ''v = pj_get_release();'']"]
    by (simp add: example_spec_def s1 s2)
qed

text \<open>
  After a word character the pattern cannot match, so the substitution copies the
  character; hence a run of word characters in the output was in the input, and copying
  creates no match that the input did not have.
\<close>

lemma sub_word_after_word:
  "is_word (hd pat) \<Longrightarrow>
   sub_word pat repl True (x # xs) = x # sub_word pat repl (is_word x) xs"
  by (simp add: sub_word.simps(2) matches_at_def)

lemma word_follows_sub_word:
  "is_word (hd pat) \<Longrightarrow> word_follows (sub_word pat repl True xs) = word_follows xs"
  by (cases xs) (simp_all add: sub_word_after_word word_follows_def)

lemma sub_word_keeps_words:
  "is_word (hd pat) \<Longrightarrow> list_all is_word ps \<Longrightarrow> prefix ps (sub_word pat repl True xs) \<Longrightarrow>
   prefix ps xs \<and>
   sub_word pat repl True xs = ps @ sub_word pat repl True (drop (length ps) xs)"
proof (induction ps arbitrary: xs)
  case Nil
  then show ?case by simp
next
  case (Cons p ps)
  show ?case
  proof (cases xs)
    case Nil
    with Cons.prems show ?thesis by simp
  next
    case (Cons x xs')
    with Cons.prems Cons.IH [of xs'] show ?thesis
      by (simp add: sub_word_after_word)
  qed
qed

lemma no_new_match:
  assumes words: "list_all is_word pat"
    and no: "\<not> matches_at pat b (ch # t)"
  shows "\<not> matches_at pat b (ch # sub_word pat repl (is_word ch) t)"
proof
  assume m: "matches_at pat b (ch # sub_word pat repl (is_word ch) t)"
  then obtain p ps where pat: "pat = p # ps"
    by (cases pat) (simp_all add: matches_at_def)
  from words have wp: "is_word p" and wps: "list_all is_word ps"
    by (simp_all add: pat)
  from m have ch: "ch = p" and pre: "prefix ps (sub_word pat repl (is_word ch) t)"
    by (auto simp: matches_at_def pat)
  from wp have hd: "is_word (hd pat)"
    by (simp add: pat)
  from pre have pre': "prefix ps (sub_word pat repl True t)"
    by (simp add: ch wp)
  from sub_word_keeps_words [OF hd wps pre']
  have p: "prefix ps t"
    and eq: "sub_word pat repl True t = ps @ sub_word pat repl True (drop (length ps) t)"
    by simp_all
  have d: "drop (length pat) (ch # sub_word pat repl (is_word ch) t) =
      sub_word pat repl True (drop (length ps) t)"
    using eq by (simp add: pat ch wp)
  have "word_follows (drop (length pat) (ch # sub_word pat repl (is_word ch) t)) =
      word_follows (sub_word pat repl True (drop (length ps) t))"
    by (simp only: d)
  also have "\<dots> = word_follows (drop (length ps) t)"
    by (rule word_follows_sub_word [OF hd])
  also have "drop (length ps) t = drop (length pat) (ch # t)"
    by (simp add: pat)
  finally have "word_follows (drop (length pat) (ch # sub_word pat repl (is_word ch) t)) =
      word_follows (drop (length pat) (ch # t))" .
  with m p have "matches_at pat b (ch # t)"
    by (simp add: matches_at_def pat ch)
  with no show False by simp
qed

lemma sub_word_idem:
  assumes words: "list_all is_word pat"
    and repl: "\<And>b ys. sub_word pat repl b (repl @ ys) = repl @ sub_word pat repl True ys"
  shows "sub_word pat repl b (sub_word pat repl b t) = sub_word pat repl b t"
proof (induction "length t" arbitrary: t b rule: less_induct)
  case less
  show ?case
  proof (cases t)
    case Nil
    then show ?thesis by simp
  next
    case (Cons ch t')
    show ?thesis
    proof (cases "matches_at pat b (ch # t')")
      case True
      then have ne: "pat \<noteq> []"
        by (simp add: matches_at_def)
      with words have lw: "is_word (last pat)"
        by (simp add: list_all_iff)
      from ne have "length (drop (length pat) (ch # t')) < length t"
        by (simp add: Cons)
      from less [OF this, of True] True show ?thesis
        by (simp add: Cons sub_word.simps(2) repl lw)
    next
      case False
      have "length t' < length t"
        by (simp add: Cons)
      from less [OF this, of "is_word ch"] False no_new_match [OF words False, of repl]
      show ?thesis
        by (simp add: Cons sub_word.simps(2))
    qed
  qed
qed

lemma sub_word_replacement:
  "sub_word ''pj_get_release'' ''proj_info'' b (''proj_info'' @ ys) =
     ''proj_info'' @ sub_word ''pj_get_release'' ''proj_info'' True ys"
  by (simp add: sub_word.simps(2) matches_at_def is_word_def)

lemma pj_get_release_word: "list_all is_word ''pj_get_release''"
  by (simp add: is_word_def)

text \<open>
  C5. Substituting \<^verbatim>\<open>proj_info\<close> for the word \<^verbatim>\<open>pj_get_release\<close> twice gives what
  substituting once gives; the replacement does not contain the pattern; and patch
  applied to its own result changes nothing.
\<close>

theorem patch_idempotent:
  "sub_word ''pj_get_release'' ''proj_info'' False
     (sub_word ''pj_get_release'' ''proj_info'' False text) =
   sub_word ''pj_get_release'' ''proj_info'' False text
   \<and> \<not> sublist ''pj_get_release'' ''proj_info''
   \<and> (patch c fs = Inr fs1 \<longrightarrow> patch c fs1 = Inr fs1)"
proof -
  note idem = sub_word_idem [OF pj_get_release_word sub_word_replacement]
  have "patch c fs1 = Inr fs1" if "patch c fs = Inr fs1"
    using that
    by (auto simp: patch_def idem split: if_splits option.splits)
  moreover have "\<not> sublist ''pj_get_release'' ''proj_info''"
    by (simp add: sublist_Cons_right)
  ultimately show ?thesis
    using idem by blast
qed

theorem patch_idempotent_witness:
  "patch example_spec [''configure'' \<mapsto> ''v = pj_get_release();''] =
     Inr [''configure'' \<mapsto> ''v = proj_info();'']
   \<and> patch example_spec [''configure'' \<mapsto> ''v = proj_info();''] =
     Inr [''configure'' \<mapsto> ''v = proj_info();'']"
proof -
  have 1: "patch example_spec [''configure'' \<mapsto> ''v = pj_get_release();''] =
     Inr [''configure'' \<mapsto> ''v = proj_info();'']"
    by (simp add: patch_def example_spec_def sub_word.simps(2) matches_at_def is_word_def
        word_follows_def)
  from patch_idempotent [of _ example_spec "[''configure'' \<mapsto> ''v = pj_get_release();'']"
      "[''configure'' \<mapsto> ''v = proj_info();'']"] 1
  show ?thesis
    by simp
qed

end
